theory Spec2Isabelle
  imports Main
begin

section \<open>Python strings\<close>

text \<open>
  A Python \<open>str\<close> is modelled as a \<open>string\<close> whose characters are the code points
  below 256. Three characters of the source are written by their code:
  the newline, the form feed \<open>\f\<close> (the section break) and the non-breaking space
  \<open>\xa0\<close>.
\<close>

abbreviation NL :: string where
  "NL \<equiv> [CHR 0x0A]"

abbreviation FF :: string where
  "FF \<equiv> [CHR 0x0C]"

abbreviation NBSP :: char where
  "NBSP \<equiv> CHR 0xA0"

text \<open>
  The characters \<open>str.strip\<close> removes: Python's whitespace code points below 256
  (tab, newline, vertical tab, form feed, carriage return, the four separators
  0x1C..0x1F, space, 0x85 and 0xA0).
\<close>

definition isspace :: "char \<Rightarrow> bool" where
  "isspace c = ((of_char c :: nat) \<in> set [9, 10, 11, 12, 13, 28, 29, 30, 31, 32, 133, 160])"

definition lstrip :: "string \<Rightarrow> string" where
  "lstrip s = dropWhile isspace s"

definition rstrip :: "string \<Rightarrow> string" where
  "rstrip s = rev (dropWhile isspace (rev s))"

definition strip :: "string \<Rightarrow> string" where
  "strip s = rstrip (lstrip s)"

text \<open>\<open>sep.join(xs)\<close>.\<close>

fun join :: "string \<Rightarrow> string list \<Rightarrow> string" where
  "join sep [] = []"
| "join sep [x] = x"
| "join sep (x # y # ys) = x @ sep @ join sep (y # ys)"

text \<open>\<open>s.split("\n")\<close>: always at least one piece.\<close>

fun split_lines :: "string \<Rightarrow> string list" where
  "split_lines [] = [[]]"
| "split_lines (c # cs) =
     (if c = CHR 0x0A then [] # split_lines cs
      else (case split_lines cs of
              [] \<Rightarrow> [[c]]
            | l # ls \<Rightarrow> (c # l) # ls))"

text \<open>\<open>text.replace("\xa0\n", "\n\n")\<close>: left to right, without overlap.\<close>

fun replace_nbsp :: "string \<Rightarrow> string" where
  "replace_nbsp (a # b # cs) =
     (if a = NBSP \<and> b = CHR 0x0A then CHR 0x0A # CHR 0x0A # replace_nbsp cs
      else a # replace_nbsp (b # cs))"
| "replace_nbsp cs = cs"

text \<open>\<open>re.search(r"^#+ ", line)\<close>: one or more \<open>#\<close> at the start, then a space.\<close>

definition heading_line :: "string \<Rightarrow> bool" where
  "heading_line line =
     (takeWhile (\<lambda>c. c = CHR ''#'') line \<noteq> [] \<and>
      (case dropWhile (\<lambda>c. c = CHR ''#'') line of
         [] \<Rightarrow> False
       | c # _ \<Rightarrow> c = CHR '' ''))"

text \<open>\<open>str(n)\<close> for a natural number: its decimal digits.\<close>

definition digit_char :: "nat \<Rightarrow> char" where
  "digit_char d = char_of (48 + d)"

fun str_nat :: "nat \<Rightarrow> string" where
  "str_nat n = (if n < 10 then [digit_char n] else str_nat (n div 10) @ [digit_char (n mod 10)])"

declare str_nat.simps [simp del]

text \<open>\<open>int(c)\<close> for a decimal digit character.\<close>

definition int_digit :: "char \<Rightarrow> nat" where
  "int_digit c = of_char c - 48"

section \<open>The parsed document\<close>

text \<open>
  The attributes the extractor reads. The HTML parser gives \<open>class\<close> as the list of
  its whitespace-separated tokens and every other attribute as one string; an absent
  attribute is \<open>None\<close>.
\<close>

record attrs =
  attr_class :: "string list option"
  attr_href :: "string option"
  attr_name :: "string option"
  attr_content :: "string option"

definition no_attrs :: attrs where
  "no_attrs = \<lparr>attr_class = None, attr_href = None, attr_name = None, attr_content = None\<rparr>"

text \<open>
  A node of the tree is an element (\<open>Tag\<close>: name, attributes, contents) or a string
  (\<open>NavigableString\<close>). Comments, doctypes and other special strings are not
  modelled. The document object itself is the list of its top-level nodes; its own
  name is \<open>[document]\<close> and it has no parent.
\<close>

datatype node =
    Tag string attrs "node list"
  | NavigableString string

type_synonym soup = "node list"

text \<open>\<open>node.name\<close>: \<open>None\<close> for a string.\<close>

fun node_name :: "node \<Rightarrow> string option" where
  "node_name (Tag n a cs) = Some n"
| "node_name (NavigableString s) = None"

text \<open>The truth value of \<open>node.name\<close>.\<close>

fun has_name :: "node \<Rightarrow> bool" where
  "has_name (Tag n a cs) = (n \<noteq> [])"
| "has_name (NavigableString s) = False"

text \<open>\<open>node.name in names\<close>.\<close>

definition name_in :: "node \<Rightarrow> string list \<Rightarrow> bool" where
  "name_in node names = (case node_name node of None \<Rightarrow> False | Some n \<Rightarrow> n \<in> set names)"

text \<open>\<open>isinstance(x, NavigableString)\<close>.\<close>

fun is_string :: "node \<Rightarrow> bool" where
  "is_string (Tag n a cs) = False"
| "is_string (NavigableString s) = True"

text \<open>\<open>node.text\<close>: all strings below the node, concatenated in document order.\<close>

fun node_text :: "node \<Rightarrow> string" where
  "node_text (NavigableString s) = s"
| "node_text (Tag n a cs) = concat (map node_text cs)"

text \<open>\<open>node.get("class")\<close> and \<open>target.get("href")\<close>, \<open>description["content"]\<close>.\<close>

fun get_class :: "node \<Rightarrow> string list option" where
  "get_class (Tag n a cs) = attr_class a"
| "get_class (NavigableString s) = None"

fun get_href :: "node \<Rightarrow> string option" where
  "get_href (Tag n a cs) = attr_href a"
| "get_href (NavigableString s) = None"

fun get_name_attr :: "node \<Rightarrow> string option" where
  "get_name_attr (Tag n a cs) = attr_name a"
| "get_name_attr (NavigableString s) = None"

fun get_content :: "node \<Rightarrow> string option" where
  "get_content (Tag n a cs) = attr_content a"
| "get_content (NavigableString s) = None"

text \<open>How an f-string prints the result of \<open>get\<close>: an absent attribute prints as \<open>None\<close>.\<close>

fun format_attr :: "string option \<Rightarrow> string" where
  "format_attr None = ''None''"
| "format_attr (Some s) = s"

text \<open>
  Every node below a node, in document order, each with the names of its ancestors
  (nearest first, the document object left out). The first argument is the ancestor
  chain of the node itself.
\<close>

fun descendants :: "string list \<Rightarrow> node \<Rightarrow> (string list \<times> node) list" where
  "descendants anc (NavigableString s) = []"
| "descendants anc (Tag n a cs) =
     concat (map (\<lambda>c. (n # anc, c) # descendants (n # anc) c) cs)"

definition soup_descendants :: "soup \<Rightarrow> (string list \<times> node) list" where
  "soup_descendants soup = concat (map (\<lambda>c. ([], c) # descendants [] c) soup)"

text \<open>\<open>node.find_all(names)\<close> and \<open>soup.find_all(names)\<close>, \<open>find\<close> for the first match.\<close>

definition find_all :: "string list \<Rightarrow> string list \<Rightarrow> node \<Rightarrow> (string list \<times> node) list" where
  "find_all names anc node = filter (\<lambda>(a, x). name_in x names) (descendants anc node)"

definition soup_find_all :: "string list \<Rightarrow> soup \<Rightarrow> (string list \<times> node) list" where
  "soup_find_all names soup = filter (\<lambda>(a, x). name_in x names) (soup_descendants soup)"

definition soup_find :: "(node \<Rightarrow> bool) \<Rightarrow> soup \<Rightarrow> node option" where
  "soup_find P soup = List.find P (map snd (soup_descendants soup))"

text \<open>The name of \<open>node.parent\<close>, from the ancestor chain of the node.\<close>

definition parent_name :: "string list \<Rightarrow> string" where
  "parent_name anc = (case anc of [] \<Rightarrow> ''[document]'' | p # _ \<Rightarrow> p)"

text \<open>
  The pass that removes every \<open>script\<close> and \<open>style\<close> element with all it contains
  (\<open>find_all\<close>, then \<open>decompose\<close> on each).
\<close>

fun decompose :: "node \<Rightarrow> node" where
  "decompose (NavigableString s) = NavigableString s"
| "decompose (Tag n a cs) =
     Tag n a (map decompose (filter (\<lambda>c. \<not> name_in c [''script'', ''style'']) cs))"

definition decompose_soup :: "soup \<Rightarrow> soup" where
  "decompose_soup soup = map decompose (filter (\<lambda>c. \<not> name_in c [''script'', ''style'']) soup)"

section \<open>The extractor\<close>

text \<open>The two flags an \<open>Extract\<close> instance is built with.\<close>

record config =
  paragraphs :: bool
  sections :: bool

text \<open>
  The \<open>article\<close> argument is \<open>None\<close> or one of the two scope tags the
  caller found, \<open>"article"\<close> and \<open>"main"\<close>; only its truth value is read.
\<close>

datatype mode = Article | Main

fun mode_tag :: "mode \<Rightarrow> string" where
  "mode_tag Article = ''article''"
| "mode_tag Main = ''main''"

definition isheader :: "node \<Rightarrow> bool" where
  "isheader node = name_in node [''h1'', ''h2'', ''h3'', ''h4'', ''h5'', ''h6'']"

text \<open>
  \<open>children\<close>: the contents without the whitespace-only strings, or \<open>None\<close> for a
  string and for an element without contents.
\<close>

definition children :: "node \<Rightarrow> node list option" where
  "children node =
     (case node of
        Tag n a cs \<Rightarrow>
          if n \<noteq> [] \<and> cs \<noteq> []
          then Some (filter (\<lambda>x. has_name x \<or> strip (node_text x) \<noteq> []) cs)
          else None
      | NavigableString s \<Rightarrow> None)"

text \<open>The ancestor chain of the children of a node.\<close>

definition child_chain :: "string list \<Rightarrow> node \<Rightarrow> string list" where
  "child_chain anc node = (case node_name node of None \<Rightarrow> anc | Some n \<Rightarrow> n # anc)"

definition iscontainer :: "node \<Rightarrow> node list option \<Rightarrow> bool" where
  "iscontainer node kids =
     (case kids of
        None \<Rightarrow> False
      | Some cs \<Rightarrow>
          cs \<noteq> [] \<and> (name_in node [''div'', ''body'', ''article''] \<or> \<not> list_ex is_string cs))"

text \<open>
  \<open>islink\<close>: the loop climbs from the node through its parents until it meets an
  \<open>a\<close> element or leaves the tree. An element is always true as a loop condition, a
  string only when it is not empty.
\<close>

fun link_walk :: "string list \<Rightarrow> bool" where
  "link_walk [] = False"
| "link_walk (p # ps) = (if p = ''a'' then True else link_walk ps)"

fun truthy :: "node \<Rightarrow> bool" where
  "truthy (Tag n a cs) = True"
| "truthy (NavigableString s) = (s \<noteq> [])"

definition islink :: "string list \<Rightarrow> node \<Rightarrow> bool" where
  "islink anc node =
     (let link = (if truthy node
                  then (if node_name node = Some ''a'' then True else link_walk anc)
                  else False)
      in link \<and> parent_name anc \<notin> set [''th'', ''td''])"

definition articletext :: "config \<Rightarrow> string list \<Rightarrow> node \<Rightarrow> string \<Rightarrow> string" where
  "articletext cfg anc node txt =
     (let valid = [''p'', ''th'', ''td'', ''li'', ''a'', ''b'', ''strong'', ''i'', ''em''];
          txt = (if (name_in node valid \<or> isheader node) \<and> \<not> islink anc node then txt else [])
      in if txt \<noteq> []
         then (let txt = replace_nbsp txt
               in if node_name node = Some ''p''
                  then (if paragraphs cfg then strip txt @ NL @ NL else strip txt @ NL)
                  else txt)
         else txt)"

text \<open>
  One turn of the loop of \<open>Extract.text\<close>: the text that item \<open>x\<close> of \<open>node\<close>
  contributes.
\<close>

definition fragment :: "node \<Rightarrow> node \<Rightarrow> string" where
  "fragment node x =
     (let target = (if has_name x then x else node);
          txt = node_text x
      in if strip txt \<noteq> []
         then (if name_in target [''b'', ''strong''] then ''**'' @ strip txt @ ''** ''
               else if name_in target [''i'', ''em''] then ''*'' @ strip txt @ ''* ''
               else if node_name target = Some ''a''
                    then ''['' @ strip txt @ '']('' @ format_attr (get_href target) @ '') ''
               else txt)
         else txt)"

text \<open>\<open>Extract.text\<close>.\<close>

definition text_handler :: "config \<Rightarrow> string list \<Rightarrow> mode option \<Rightarrow> node \<Rightarrow> string" where
  "text_handler cfg anc article node =
     (let items = (case children node of None \<Rightarrow> [node] | Some [] \<Rightarrow> [node] | Some cs \<Rightarrow> cs);
          txt = concat (map (fragment node) items);
          txt = (if article \<noteq> None then articletext cfg anc node txt else txt)
      in if has_name node \<and> txt \<noteq> [] then txt else strip txt)"

text \<open>
  \<open>Extract.header\<close>, reached only for \<open>h1\<close> .. \<open>h6\<close>: the level is the digit at
  index 1 of the name.
\<close>

definition header :: "config \<Rightarrow> string list \<Rightarrow> mode option \<Rightarrow> node \<Rightarrow> string" where
  "header cfg anc article node =
     (let level = replicate (case node_name node of Some (h # d # r) \<Rightarrow> int_digit d | _ \<Rightarrow> 0) (CHR ''#'');
          txt = text_handler cfg anc article node;
          level = (if sections cfg then FF @ level else NL @ level)
      in if strip txt \<noteq> [] then level @ '' '' @ lstrip txt else [])"

definition block :: "config \<Rightarrow> node \<Rightarrow> string" where
  "block cfg node =
     (let txt = join NL (map (\<lambda>x. ''> '' @ x) (split_lines (strip (node_text node))))
      in if paragraphs cfg then txt @ NL @ NL else txt @ NL)"

definition code :: "config \<Rightarrow> node \<Rightarrow> string" where
  "code cfg node =
     (let txt = ''```'' @ NL @ strip (node_text node) @ NL @ ''```''
      in if paragraphs cfg then txt @ NL @ NL else txt @ NL)"

text \<open>
  The loop of \<open>Extract.items\<close> over the enumerated \<open>li\<close> elements, each already
  converted; \<open>elements\<close> is the list it appends to.
\<close>

fun items_loop :: "node \<Rightarrow> (nat \<times> string) list \<Rightarrow> string list \<Rightarrow> string list" where
  "items_loop node [] elements = elements"
| "items_loop node ((x, txt) # rest) elements =
     (let prefix = (if node_name node = Some ''ul'' then ''-'' else str_nat (x + 1) @ ''.'')
      in items_loop node rest (if txt \<noteq> [] then elements @ [prefix @ '' '' @ txt] else elements))"

text \<open>
  The loop of \<open>Extract.table\<close> over the rows, each given as the list of its
  converted cells; \<open>n\<close> is \<open>len(rows)\<close> and \<open>hdr\<close> the flag \<open>header\<close>.
\<close>

fun table_loop :: "nat \<Rightarrow> string list list \<Rightarrow> string list \<Rightarrow> bool \<Rightarrow> string list" where
  "table_loop n [] elements hdr = elements"
| "table_loop n (columns # rest) elements hdr =
     (let elements = elements @ [''|'' @ join ''|'' columns @ ''|'']
      in if \<not> hdr \<and> n > 1
         then table_loop n rest (elements @ [concat (replicate (length columns) ''|---'') @ ''|'']) True
         else table_loop n rest elements hdr)"

text \<open>\<open>Extract.process\<close>, \<open>Extract.items\<close> and \<open>Extract.table\<close>.\<close>

function process :: "config \<Rightarrow> string list \<Rightarrow> mode option \<Rightarrow> node \<Rightarrow> string"
  and items :: "config \<Rightarrow> string list \<Rightarrow> mode option \<Rightarrow> node \<Rightarrow> string"
  and table :: "config \<Rightarrow> string list \<Rightarrow> mode option \<Rightarrow> node \<Rightarrow> string"
where
  "process cfg anc article node =
     (if isheader node then header cfg anc article node
      else if name_in node [''blockquote'', ''q''] then block cfg node
      else if name_in node [''ul'', ''ol''] then items cfg anc article node
      else if name_in node [''code'', ''pre''] then code cfg node
      else if node_name node = Some ''table'' then table cfg anc article node
      else if name_in node (''aside'' # (if article \<noteq> None then [] else [''header'', ''footer'']))
      then []
      else
        (let page = (has_name node \<and>
                     (case get_class node of None \<Rightarrow> False | Some cl \<Rightarrow> cl \<noteq> [] \<and> ''page'' \<in> set cl));
             kids = children node;
             txt = (if iscontainer node kids
                    then (case kids of
                            None \<Rightarrow> []
                          | Some cs \<Rightarrow>
                              (let texts = map (process cfg (child_chain anc node) article) cs
                               in join NL (filter (\<lambda>t. t \<noteq> [] \<or> article = None) texts)))
                    else text_handler cfg anc article node)
         in if page \<and> sections cfg then txt @ FF else txt))"
| "items cfg anc article node =
     join NL (items_loop node
       (List.enumerate 0 (map (\<lambda>(a, element). process cfg a article element)
                              (find_all [''li''] anc node))) [])"
| "table cfg anc article node =
     (let rows = find_all [''tr''] anc node
      in join NL (table_loop (length rows)
           (map (\<lambda>(ra, row). map (\<lambda>(ca, column). process cfg ca article column)
                                  (find_all [''th'', ''td''] ra row)) rows) [] False))"
  by pat_completeness auto
termination
proof -
  have desc: "size x < size n" if "(a, x) \<in> set (descendants anc n)" for a x anc n
    using that
  proof (induction anc n arbitrary: a x rule: descendants.induct)
    case (1 anc s)
    then show ?case by simp
  next
    case (2 anc n at cs)
    from "2.prems" obtain c where c: "c \<in> set cs" and
      d: "(a, x) = (n # anc, c) \<or> (a, x) \<in> set (descendants (n # anc) c)" by auto
    have sc: "size c < size (Tag n at cs)"
      using c by (simp add: size_list_estimation' less_Suc_eq_le)
    from d show ?case
    proof
      assume "(a, x) = (n # anc, c)"
      then show ?thesis using sc by simp
    next
      assume "(a, x) \<in> set (descendants (n # anc) c)"
      then have "size x < size c" using "2.IH" c by blast
      then show ?thesis using sc by simp
    qed
  qed
  have found: "size x < size n" if "(a, x) \<in> set (find_all names anc n)" for a x names anc n
    using that by (auto simp: find_all_def dest: desc)
  have kid: "size c < size n" if "Some cs = children n" "c \<in> set cs" for c cs n
    using that
    by (cases n) (auto simp: children_def size_list_estimation' less_Suc_eq_le split: if_splits)
  show ?thesis
    apply (relation "measure (\<lambda>x. case x of
              Inl (cfg, anc, article, node) \<Rightarrow> 2 * size node + 1
            | Inr (Inl (cfg, anc, article, node)) \<Rightarrow> 2 * size node
            | Inr (Inr (cfg, anc, article, node)) \<Rightarrow> 2 * size node)")
        apply simp_all
      apply (blast intro: kid)
    subgoal for anc node x a element
      using found [of a element "[''li'']" anc node] by simp
    subgoal for anc node rows r ra row c ca column
      using found [of ra row "[''tr'']" anc node]
            found [of ca column "[''th'', ''td'']" ra row] by simp
    done
qed

declare process.simps [simp del] items.simps [simp del] table.simps [simp del]

text \<open>
  \<open>Extract.metadata\<close>. \<open>description["content"]\<close> raises \<open>KeyError\<close> when the element
  has no such attribute.
\<close>

datatype error = KeyError

definition metadata :: "config \<Rightarrow> soup \<Rightarrow> error + string list" where
  "metadata cfg soup =
     (let title = soup_find (\<lambda>x. name_in x [''title'']) soup;
          md = (case title of
                  None \<Rightarrow> []
                | Some t \<Rightarrow> if node_text t \<noteq> [] then [''**'' @ strip (node_text t) @ ''**''] else []);
          description = soup_find (\<lambda>x. name_in x [''meta''] \<and> get_name_attr x = Some ''description'') soup
      in case description of
           None \<Rightarrow> Inr (if md \<noteq> [] then md @ [if sections cfg then FF else NL @ NL] else md)
         | Some d \<Rightarrow>
             (case get_content d of
                None \<Rightarrow> Inl KeyError
              | Some c \<Rightarrow>
                  (let md = (if c \<noteq> [] then md @ [NL @ ''*'' @ strip c @ ''*''] else md)
                   in Inr (if md \<noteq> [] then md @ [if sections cfg then FF else NL @ NL] else md))))"

text \<open>\<open>Extract.default\<close>.\<close>

definition default_text :: "config \<Rightarrow> soup \<Rightarrow> string" where
  "default_text cfg soup =
     join NL (map (\<lambda>line. if sections cfg \<and> heading_line line then FF @ line else line)
                  (split_lines (concat (map node_text soup))))"

text \<open>
  \<open>Extract.__call__\<close>, from the parsed tree on. \<open>root_mode\<close> is the local variable
  \<open>article\<close>, \<open>nodes_loop\<close> the loop that fills \<open>nodes\<close>.
\<close>

definition root_mode :: "soup \<Rightarrow> mode option" where
  "root_mode soup =
     List.find (\<lambda>m. soup_find (\<lambda>x. name_in x [mode_tag m]) soup \<noteq> None) [Article, Main]"

fun nodes_loop :: "config \<Rightarrow> mode option \<Rightarrow> (string list \<times> node) list \<Rightarrow> string list \<Rightarrow> string list" where
  "nodes_loop cfg article [] nodes = nodes"
| "nodes_loop cfg article ((anc, node) # rest) nodes =
     (if article = None \<or> find_all [''p''] anc node \<noteq> []
      then nodes_loop cfg article rest (nodes @ [process cfg anc article node])
      else nodes_loop cfg article rest nodes)"

definition section_nodes :: "config \<Rightarrow> soup \<Rightarrow> string list" where
  "section_nodes cfg soup =
     (let article = root_mode soup
      in nodes_loop cfg article
           (soup_find_all [case article of None \<Rightarrow> ''body'' | Some m \<Rightarrow> mode_tag m] soup) [])"

definition call :: "config \<Rightarrow> soup \<Rightarrow> error + string" where
  "call cfg parsed =
     (let soup = decompose_soup parsed;
          nodes = section_nodes cfg soup
      in if nodes \<noteq> []
         then (case metadata cfg soup of
                 Inl e \<Rightarrow> Inl e
               | Inr md \<Rightarrow> Inr (join NL (md @ nodes)))
         else Inr (default_text cfg soup))"

section \<open>Example inputs\<close>

text \<open>The two configurations: the default one and the one with section parsing.\<close>

definition plain :: config where
  "plain = \<lparr>paragraphs = False, sections = False\<rparr>"

definition sectioned :: config where
  "sectioned = \<lparr>paragraphs = False, sections = True\<rparr>"

text \<open>\<open><html><body><h1>This is a test</h1></body></html>\<close>, parsed.\<close>

definition heading_document :: soup where
  "heading_document =
     [Tag ''html'' no_attrs
        [Tag ''body'' no_attrs
           [Tag ''h1'' no_attrs [NavigableString ''This is a test'']]]]"

text \<open>\<open><h1 class="page">Title</h1>\<close>.\<close>

definition page_heading :: node where
  "page_heading =
     Tag ''h1'' (no_attrs\<lparr>attr_class := Some [''page'']\<rparr>) [NavigableString ''Title'']"

text \<open>
  \<open><html><head><meta name="description"></head><body><p>Text</p></body></html>\<close>:
  the description element has no \<open>content\<close> attribute.
\<close>

definition description_document :: soup where
  "description_document =
     [Tag ''html'' no_attrs
        [Tag ''head'' no_attrs [Tag ''meta'' (no_attrs\<lparr>attr_name := Some ''description''\<rparr>) []],
         Tag ''body'' no_attrs [Tag ''p'' no_attrs [NavigableString ''Text'']]]]"

text \<open>A document with a title, a description and one paragraph.\<close>

definition described_document :: soup where
  "described_document =
     [Tag ''html'' no_attrs
        [Tag ''head'' no_attrs
           [Tag ''title'' no_attrs [NavigableString ''T''],
            Tag ''meta'' (no_attrs\<lparr>attr_name := Some ''description'', attr_content := Some ''D''\<rparr>) []],
         Tag ''body'' no_attrs [Tag ''p'' no_attrs [NavigableString ''x'']]]]"

text \<open>An ordered and an unordered list, each with an empty second item.\<close>

definition gap_list :: node where
  "gap_list =
     Tag ''ol'' no_attrs
       [Tag ''li'' no_attrs [NavigableString ''a''],
        Tag ''li'' no_attrs [],
        Tag ''li'' no_attrs [NavigableString ''c'']]"

definition dash_list :: node where
  "dash_list =
     Tag ''ul'' no_attrs
       [Tag ''li'' no_attrs [NavigableString ''Test1''],
        Tag ''li'' no_attrs [],
        Tag ''li'' no_attrs [NavigableString ''Test2'']]"

text \<open>The table of the test suite, and a table with one row.\<close>

definition header_row :: node where
  "header_row =
     Tag ''tr'' no_attrs
       [Tag ''th'' no_attrs [NavigableString ''Header1''],
        Tag ''th'' no_attrs [NavigableString ''Header2'']]"

definition data_row :: node where
  "data_row =
     Tag ''tr'' no_attrs
       [Tag ''td'' no_attrs [NavigableString ''Test1''],
        Tag ''td'' no_attrs [NavigableString ''Test2'']]"

definition two_row_table :: node where
  "two_row_table = Tag ''table'' no_attrs [header_row, data_row]"

definition one_row_table :: node where
  "one_row_table = Tag ''table'' no_attrs [data_row]"

text \<open>A link with a target, as it stands in a navigation list or in a table cell.\<close>

definition cell_link :: node where
  "cell_link = Tag ''a'' (no_attrs\<lparr>attr_href := Some ''u''\<rparr>) [NavigableString ''menu'']"

text \<open>
  A document with two \<open>article\<close> elements, the first without a paragraph, and a
  \<open>main\<close> element between them.
\<close>

definition two_articles :: soup where
  "two_articles =
     [Tag ''html'' no_attrs
        [Tag ''body'' no_attrs
           [Tag ''article'' no_attrs [Tag ''span'' no_attrs [NavigableString ''menu'']],
            Tag ''main'' no_attrs [Tag ''p'' no_attrs [NavigableString ''other'']],
            Tag ''article'' no_attrs [Tag ''p'' no_attrs [NavigableString ''story'']]]]]"

text \<open>
  \<open><div class="page"><p>a</p><span></span><p>b</p></div>\<close>: a container whose second
  child converts to the empty string.
\<close>

definition mixed_div :: node where
  "mixed_div =
     Tag ''div'' (no_attrs\<lparr>attr_class := Some [''page'']\<rparr>)
       [Tag ''p'' no_attrs [NavigableString ''a''],
        Tag ''span'' no_attrs [],
        Tag ''p'' no_attrs [NavigableString ''b'']]"



text \<open>
  A document whose first \<open>title\<close> element is empty; the second one has text.
\<close>

definition late_title_document :: soup where
  "late_title_document =
     [Tag ''html'' no_attrs
        [Tag ''head'' no_attrs
           [Tag ''title'' no_attrs [],
            Tag ''title'' no_attrs [NavigableString ''T''],
            Tag ''meta'' (no_attrs\<lparr>attr_name := Some ''description'', attr_content := Some ''D''\<rparr>) []],
         Tag ''body'' no_attrs [Tag ''p'' no_attrs [NavigableString ''x'']]]]"

text \<open>\<open><ul><li><p>a</p><p>b</p></li></ul>\<close>: one item holding two paragraphs.\<close>

definition paragraph_list :: node where
  "paragraph_list =
     Tag ''ul'' no_attrs
       [Tag ''li'' no_attrs
          [Tag ''p'' no_attrs [NavigableString ''a''], Tag ''p'' no_attrs [NavigableString ''b'']]]"

text \<open>
  \<open><table><tr><td><p>a</p><p>b</p></td></tr><tr><td>c</td></tr></table>\<close>, and a table
  with one row whose only cell holds another table with one row.
\<close>

definition paragraph_table :: node where
  "paragraph_table =
     Tag ''table'' no_attrs
       [Tag ''tr'' no_attrs
          [Tag ''td'' no_attrs
             [Tag ''p'' no_attrs [NavigableString ''a''], Tag ''p'' no_attrs [NavigableString ''b'']]],
        Tag ''tr'' no_attrs [Tag ''td'' no_attrs [NavigableString ''c'']]]"

definition nested_table :: node where
  "nested_table =
     Tag ''table'' no_attrs
       [Tag ''tr'' no_attrs
          [Tag ''td'' no_attrs
             [Tag ''table'' no_attrs
                [Tag ''tr'' no_attrs [Tag ''td'' no_attrs [NavigableString ''a'']]]]]]"

text \<open>
  \<open><span>x</span>\<close>, as it stands in a cell of a table that lies inside a link, and a
  link that holds an image and no text.
\<close>

definition cell_span :: node where
  "cell_span = Tag ''span'' no_attrs [NavigableString ''x'']"

definition image_link :: node where
  "image_link = Tag ''a'' (no_attrs\<lparr>attr_href := Some ''u''\<rparr>) [Tag ''img'' no_attrs []]"

text \<open>\<open><div>  </div>\<close>: a \<open>div\<close> whose only content is whitespace.\<close>

definition blank_div :: node where
  "blank_div = Tag ''div'' no_attrs [NavigableString ''  '']"


section \<open>Auxiliary facts\<close>

lemma join_Cons: "xs \<noteq> [] \<Longrightarrow> join sep (x # xs) = x @ sep @ join sep xs"
  by (cases xs) simp_all

lemma items_loop_eq:
  "items_loop node xs elements =
     elements @ map (\<lambda>(x, t). (if node_name node = Some ''ul'' then ''-'' else str_nat (x + 1) @ ''.'') @ '' '' @ t)
                    (filter (\<lambda>(x, t). t \<noteq> []) xs)"
  by (induction node xs elements rule: items_loop.induct) (simp_all add: Let_def)

lemma enumerate_filter_snd:
  "map snd (filter (\<lambda>(x, t). P t) (List.enumerate n xs)) = filter P xs"
  by (induction xs arbitrary: n) simp_all

lemma table_loop_done:
  "hdr \<or> n \<le> 1 \<Longrightarrow>
   table_loop n rows elements hdr = elements @ map (\<lambda>columns. ''|'' @ join ''|'' columns @ ''|'') rows"
  by (induction n rows elements hdr rule: table_loop.induct) (auto simp: Let_def)

lemma table_loop_first:
  "1 < n \<Longrightarrow>
   table_loop n (columns # rest) elements False =
     elements @ [''|'' @ join ''|'' columns @ ''|'', concat (replicate (length columns) ''|---'') @ ''|'']
       @ map (\<lambda>columns. ''|'' @ join ''|'' columns @ ''|'') rest"
  by (simp add: Let_def table_loop_done)

lemma nodes_loop_eq:
  "nodes_loop cfg article xs nodes =
     nodes @ map (\<lambda>(anc, node). process cfg anc article node)
                 (filter (\<lambda>(anc, node). article = None \<or> find_all [''p''] anc node \<noteq> []) xs)"
  by (induction cfg article xs nodes rule: nodes_loop.induct) simp_all

lemma digit_char_values:
  "digit_char 0 = CHR ''0''" "digit_char 1 = CHR ''1''" "digit_char 2 = CHR ''2''"
  "digit_char 3 = CHR ''3''" "digit_char 4 = CHR ''4''" "digit_char 5 = CHR ''5''"
  "digit_char 6 = CHR ''6''" "digit_char 7 = CHR ''7''" "digit_char 8 = CHR ''8''"
  "digit_char 9 = CHR ''9''" "digit_char (Suc 0) = CHR ''1''"
  by code_simp+

lemma isheader_cases:
  "isheader node \<Longrightarrow> \<exists>k. 1 \<le> k \<and> k \<le> 6 \<and> node_name node = Some [CHR ''h'', digit_char k]"
proof -
  assume "isheader node"
  then consider "node_name node = Some ''h1''" | "node_name node = Some ''h2''"
    | "node_name node = Some ''h3''" | "node_name node = Some ''h4''"
    | "node_name node = Some ''h5''" | "node_name node = Some ''h6''"
    by (auto simp: isheader_def name_in_def split: option.splits)
  then show ?thesis
  proof cases
    case 1 then show ?thesis by (intro exI [of _ 1]) (simp add: digit_char_values)
  next
    case 2 then show ?thesis by (intro exI [of _ 2]) (simp add: digit_char_values)
  next
    case 3 then show ?thesis by (intro exI [of _ 3]) (simp add: digit_char_values)
  next
    case 4 then show ?thesis by (intro exI [of _ 4]) (simp add: digit_char_values)
  next
    case 5 then show ?thesis by (intro exI [of _ 5]) (simp add: digit_char_values)
  next
    case 6 then show ?thesis by (intro exI [of _ 6]) (simp add: digit_char_values)
  qed
qed

lemma int_digit_digit_char: "k \<le> 9 \<Longrightarrow> int_digit (digit_char k) = k"
  by (simp add: int_digit_def digit_char_def of_char_of [where ?'a = nat])

lemma soup_find_exists:
  "(soup_find (\<lambda>x. name_in x [t]) soup \<noteq> None) =
   (\<exists>x\<in>set (map snd (soup_descendants soup)). node_name x = Some t)"
  by (auto simp: soup_find_def find_None_iff name_in_def split: option.splits)

lemma dropWhile_keeps: "x \<in> set xs \<Longrightarrow> \<not> P x \<Longrightarrow> x \<in> set (dropWhile P xs)"
  by (induction xs) auto

lemma strip_nonempty_iff: "strip s \<noteq> [] \<longleftrightarrow> (\<exists>c\<in>set s. \<not> isspace c)"
proof
  assume "strip s \<noteq> []"
  then show "\<exists>c\<in>set s. \<not> isspace c"
    by (auto simp: strip_def rstrip_def lstrip_def dropWhile_eq_Nil_conv dest: set_dropWhileD)
next
  assume "\<exists>c\<in>set s. \<not> isspace c"
  then obtain c where c: "c \<in> set s" "\<not> isspace c" by blast
  then have "c \<in> set (dropWhile isspace s)" by (rule dropWhile_keeps)
  then have "c \<in> set (rev (dropWhile isspace s))" by simp
  then have "c \<in> set (dropWhile isspace (rev (dropWhile isspace s)))"
    using c(2) by (rule dropWhile_keeps)
  then have "dropWhile isspace (rev (dropWhile isspace s)) \<noteq> []"
    by (metis empty_iff empty_set)
  then show "strip s \<noteq> []"
    unfolding strip_def rstrip_def lstrip_def by (simp only: rev_is_Nil_conv not_False_eq_True)
qed

lemma strip_Nil: "strip [] = []"
  by (simp add: strip_def rstrip_def lstrip_def)

lemma fragment_nonempty: "strip (node_text x) \<noteq> [] \<Longrightarrow> fragment node x \<noteq> []"
  by (auto simp: fragment_def Let_def strip_Nil)

lemma fragments_nonempty:
  assumes "strip (node_text node) \<noteq> []"
  shows "concat (map (fragment node)
           (case children node of None \<Rightarrow> [node] | Some [] \<Rightarrow> [node] | Some cs \<Rightarrow> cs)) \<noteq> []"
proof (cases "children node")
  case None
  then show ?thesis using fragment_nonempty [OF assms] by simp
next
  case (Some kids)
  show ?thesis
  proof (cases kids)
    case Nil
    then show ?thesis using Some fragment_nonempty [OF assms] by simp
  next
    case (Cons k ks)
    from Some obtain n a cs where node: "node = Tag n a cs"
      and kids: "kids = filter (\<lambda>x. has_name x \<or> strip (node_text x) \<noteq> []) cs"
      by (cases node) (auto simp: children_def split: if_splits)
    from assms obtain c where c: "c \<in> set (node_text node)" "\<not> isspace c"
      by (auto simp: strip_nonempty_iff)
    then obtain x where x: "x \<in> set cs" "c \<in> set (node_text x)"
      using node by auto
    then have sx: "strip (node_text x) \<noteq> []"
      using c(2) by (auto simp: strip_nonempty_iff)
    then have "x \<in> set kids" using x(1) kids by simp
    moreover have "fragment node x \<noteq> []" using sx by (rule fragment_nonempty)
    ultimately have "concat (map (fragment node) kids) \<noteq> []" by auto
    then show ?thesis using Some Cons by simp
  qed
qed

lemma replace_nbsp_nonempty: "s \<noteq> [] \<Longrightarrow> replace_nbsp s \<noteq> []"
  by (induction s rule: replace_nbsp.induct) auto

lemma link_walk_mem: "link_walk anc \<longleftrightarrow> ''a'' \<in> set anc"
  by (induction anc) auto

lemma articletext_kept:
  assumes "name_in node [''p'', ''th'', ''td'', ''li'', ''a'', ''b'', ''strong'', ''i'', ''em''] \<or> isheader node"
    and "\<not> islink anc node" and "txt \<noteq> []"
  shows "articletext cfg anc node txt \<noteq> []"
  using assms replace_nbsp_nonempty [OF assms(3)] by (simp add: articletext_def Let_def)

lemma keep_or_strip: "P \<Longrightarrow> (if P \<and> t \<noteq> [] then t else strip t) = t"
  by (cases "t = []") (simp_all add: strip_Nil)


lemma text_handler_article:
  assumes "has_name node"
  shows "text_handler cfg anc (Some m) node =
           articletext cfg anc node (text_handler cfg anc None node)"
  by (simp only: text_handler_def Let_def simp_thms option.distinct if_False if_True
        keep_or_strip [OF assms])

section \<open>Dispatch of a heading that carries the page class\<close>

text \<open>
  C1, as stated: for a heading with the class token \<open>page\<close> and section mode on,
  the output of \<open>process\<close> starts with \<open>#\<close> and ends with the section break.
  It fails for \<open><h1 class="page">Title</h1>\<close>: the output is the section break, then
  \<open># Title\<close>, with nothing after the text.
\<close>

theorem page_heading_counterexample:
  "isheader page_heading \<and> get_class page_heading = Some [''page''] \<and> sections sectioned \<and>
   process sectioned [''body''] None page_heading = FF @ ''# Title'' \<and>
   hd (process sectioned [''body''] None page_heading) \<noteq> CHR ''#'' \<and>
   last (process sectioned [''body''] None page_heading) \<noteq> CHR 0x0C"
  by code_simp

text \<open>
  C1, amended: for every heading node (\<open>h1\<close> .. \<open>h6\<close>), with or without the page
  class, \<open>process\<close> returns exactly what the heading rule returns, and no page break
  is appended. That result is empty when the heading text is blank; otherwise it is
  the section break (section mode) or a newline, then as many \<open>#\<close> as the digit of
  the tag says, a space and the heading text without its leading whitespace.
\<close>

theorem process_heading:
  assumes "isheader node"
  shows "process cfg anc article node = header cfg anc article node \<and>
         (\<exists>k. 1 \<le> k \<and> k \<le> 6 \<and> node_name node = Some [CHR ''h'', digit_char k] \<and>
              header cfg anc article node =
                (if strip (text_handler cfg anc article node) = [] then []
                 else (if sections cfg then FF else NL) @ replicate k (CHR ''#'') @ '' '' @
                      lstrip (text_handler cfg anc article node)))"
proof
  show "process cfg anc article node = header cfg anc article node"
    using assms by (simp add: process.simps)
  from isheader_cases [OF assms] obtain k where
    k: "1 \<le> k" "k \<le> 6" "node_name node = Some [CHR ''h'', digit_char k]" by blast
  have "header cfg anc article node =
          (if strip (text_handler cfg anc article node) = [] then []
           else (if sections cfg then FF else NL) @ replicate k (CHR ''#'') @ '' '' @
                lstrip (text_handler cfg anc article node))"
    using k by (simp add: header_def Let_def int_digit_digit_char)
  with k show "\<exists>k. 1 \<le> k \<and> k \<le> 6 \<and> node_name node = Some [CHR ''h'', digit_char k] \<and>
              header cfg anc article node =
                (if strip (text_handler cfg anc article node) = [] then []
                 else (if sections cfg then FF else NL) @ replicate k (CHR ''#'') @ '' '' @
                      lstrip (text_handler cfg anc article node))"
    by blast
qed

theorem process_heading_witness:
  "process sectioned [''body''] None page_heading = header sectioned [''body''] None page_heading \<and>
   header sectioned [''body''] None page_heading = FF @ ''# Title''"
proof -
  have h: "isheader page_heading" by code_simp
  have e: "header sectioned [''body''] None page_heading = FF @ ''# Title''" by code_simp
  show ?thesis using process_heading [OF h, of sectioned "[''body'']" None] e by simp
qed

section \<open>Exceptions of the conversion pass\<close>

text \<open>
  C2: the conversion pass returns a string for every parsed document, also for one
  whose \<open>meta\<close> description element has no \<open>content\<close> attribute. For the document
  \<open><html><head><meta name="description"></head><body><p>Text</p></body></html>\<close> the
  pass does not return: \<open>metadata\<close> reads \<open>description["content"]\<close> and the
  \<open>KeyError\<close> leaves \<open>__call__\<close>.
\<close>

theorem call_description_without_content:
  "call plain description_document = Inl KeyError"
  by code_simp

section \<open>The metadata preamble\<close>

text \<open>
  C3, as stated: when a title with text and a description with content are present
  and a top-level node is converted, the output begins with \<open>**title**\<close>, then
  \<open>*description*\<close>, followed immediately by exactly one separator (the section
  break in section mode, else a blank line) before the first content fragment. It
  fails. In section mode a newline stands between the description and the section
  break and another one after it; without sections four newlines (three blank lines)
  stand between the description and the content. And only the first \<open>title\<close>
  element counts: when it is empty, a later title with text is not printed.
\<close>

theorem metadata_separator_counterexample:
  "call sectioned described_document = Inr (''**T**'' @ NL @ NL @ ''*D*'' @ NL @ FF @ NL @ ''x'') \<and>
   call sectioned described_document \<noteq> Inr (''**T**'' @ NL @ NL @ ''*D*'' @ FF @ ''x'') \<and>
   call plain described_document = Inr (''**T**'' @ NL @ NL @ ''*D*'' @ NL @ NL @ NL @ NL @ ''x'') \<and>
   call plain described_document \<noteq> Inr (''**T**'' @ NL @ NL @ ''*D*'' @ NL @ NL @ ''x'') \<and>
   call plain late_title_document = Inr (NL @ ''*D*'' @ NL @ NL @ NL @ NL @ ''x'')"
  by code_simp

text \<open>
  C3, amended: when the first \<open>title\<close> element of the document has text, its first
  \<open>meta\<close> description element has a \<open>content\<close> attribute that is not empty, and at
  least one top-level node is converted, the result is the newline-join of three
  metadata entries followed by the converted nodes: the bold title, the italic
  description with a newline in front, and one separator, which is the section break
  in section mode and two newlines otherwise. Written out: \<open>**title**\<close>, two
  newlines, \<open>*description*\<close>, a newline, the separator, a newline, and the
  newline-join of the converted nodes. Title and description are stripped.
\<close>

theorem call_metadata_preamble:
  assumes "soup = decompose_soup parsed"
    and "soup_find (\<lambda>x. name_in x [''title'']) soup = Some t" and "node_text t \<noteq> []"
    and "soup_find (\<lambda>x. name_in x [''meta''] \<and> get_name_attr x = Some ''description'') soup = Some d"
    and "get_content d = Some c" and "c \<noteq> []"
    and "section_nodes cfg soup \<noteq> []"
    and "separator = (if sections cfg then FF else NL @ NL)"
  shows "call cfg parsed =
           Inr (join NL ([''**'' @ strip (node_text t) @ ''**'', NL @ ''*'' @ strip c @ ''*'', separator]
                         @ section_nodes cfg soup)) \<and>
         call cfg parsed =
           Inr (''**'' @ strip (node_text t) @ ''**'' @ NL @ NL @ ''*'' @ strip c @ ''*'' @ NL @
                separator @ NL @ join NL (section_nodes cfg soup))"
proof -
  have md: "metadata cfg soup =
              Inr [''**'' @ strip (node_text t) @ ''**'', NL @ ''*'' @ strip c @ ''*'', separator]"
    using assms(2-6,8) by (simp add: metadata_def Let_def)
  have c1: "call cfg parsed =
           Inr (join NL ([''**'' @ strip (node_text t) @ ''**'', NL @ ''*'' @ strip c @ ''*'', separator]
                         @ section_nodes cfg soup))"
    using assms(1,7) md by (simp add: call_def Let_def)
  moreover have "join NL ([''**'' @ strip (node_text t) @ ''**'', NL @ ''*'' @ strip c @ ''*'', separator]
                         @ section_nodes cfg soup) =
           ''**'' @ strip (node_text t) @ ''**'' @ NL @ NL @ ''*'' @ strip c @ ''*'' @ NL @
                separator @ NL @ join NL (section_nodes cfg soup)"
    using assms(7) by (simp add: join_Cons)
  ultimately show ?thesis by simp
qed

theorem call_metadata_preamble_witness:
  "call plain described_document =
     Inr (''**T**'' @ NL @ NL @ ''*D*'' @ NL @ NL @ NL @ NL @ ''x'') \<and>
   call sectioned described_document =
     Inr (''**T**'' @ NL @ NL @ ''*D*'' @ NL @ FF @ NL @ ''x'')"
proof -
  have t: "soup_find (\<lambda>x. name_in x [''title'']) (decompose_soup described_document) =
             Some (Tag ''title'' no_attrs [NavigableString ''T''])"
    by code_simp
  have tt: "node_text (Tag ''title'' no_attrs [NavigableString ''T'']) \<noteq> []"
    by code_simp
  have d: "soup_find (\<lambda>x. name_in x [''meta''] \<and> get_name_attr x = Some ''description'')
             (decompose_soup described_document) =
             Some (Tag ''meta'' (no_attrs\<lparr>attr_name := Some ''description'', attr_content := Some ''D''\<rparr>) [])"
    by code_simp
  have c: "get_content (Tag ''meta'' (no_attrs\<lparr>attr_name := Some ''description'', attr_content := Some ''D''\<rparr>) []) = Some ''D''"
    by code_simp
  have n: "section_nodes plain (decompose_soup described_document) = [''x'']"
          "section_nodes sectioned (decompose_soup described_document) = [''x'']"
    by code_simp+
  have s: "strip (node_text (Tag ''title'' no_attrs [NavigableString ''T''])) = ''T''" "strip ''D'' = ''D''"
          "sections sectioned" "\<not> sections plain"
    by code_simp+
  show ?thesis
    using call_metadata_preamble [OF refl t tt d c _ _ refl, where cfg = plain]
          call_metadata_preamble [OF refl t tt d c _ _ refl, where cfg = sectioned] n s
    by simp
qed

section \<open>Lists\<close>

text \<open>
  C4, as stated: the output of a list has exactly one line for each \<open>li\<close>
  descendant that is not empty, and every such line carries the prefix. It fails
  for \<open><ul><li><p>a</p><p>b</p></li></ul>\<close>: the one item gives two lines, \<open>- a\<close>
  and \<open>b\<close>, the second without a prefix. The numbers of an ordered list are the
  positions among all items: the list \<open>a\<close>, empty, \<open>c\<close> is numbered \<open>1.\<close> and
  \<open>3.\<close>.
\<close>

theorem paragraph_list_counterexample:
  "length (filter (\<lambda>t. t \<noteq> [])
     (map (\<lambda>(a, element). process plain a None element)
          (find_all [''li''] [''body''] paragraph_list))) = 1 \<and>
   process plain [''body''] None paragraph_list = ''- a'' @ NL @ ''b'' \<and>
   split_lines (process plain [''body''] None paragraph_list) = [''- a'', ''b''] \<and>
   process plain [''body''] None gap_list = ''1. a'' @ NL @ ''3. c''"
  by code_simp

text \<open>
  C4, amended: a list node is converted by the list rule. Its output is the
  newline-join of one entry for each \<open>li\<close> descendant whose converted text is not
  empty, in document order; an \<open>li\<close> whose converted text is empty contributes
  nothing. An entry is the prefix, a space and the converted text of the item; that
  text may contain newlines, so an entry can be more than one line and only its first
  line carries the prefix. The prefix is \<open>-\<close> in an unordered list. In an ordered
  list it is the number of the item and a dot, where the number is the position of
  the item among all \<open>li\<close> descendants counted from 1, so the numbers of the omitted
  empty items are left out.
\<close>

theorem items_lines:
  assumes "name_in node [''ul'', ''ol'']"
    and "texts = map (\<lambda>(a, element). process cfg a article element) (find_all [''li''] anc node)"
  shows "process cfg anc article node = items cfg anc article node \<and>
         (node_name node = Some ''ul'' \<longrightarrow>
            items cfg anc article node =
              join NL (map (\<lambda>t. ''- '' @ t) (filter (\<lambda>t. t \<noteq> []) texts))) \<and>
         (node_name node = Some ''ol'' \<longrightarrow>
            items cfg anc article node =
              join NL (map (\<lambda>(x, t). str_nat (x + 1) @ ''. '' @ t)
                           (filter (\<lambda>(x, t). t \<noteq> []) (List.enumerate 0 texts))))"
proof (intro conjI impI)
  show "process cfg anc article node = items cfg anc article node"
    using assms(1) by (auto simp: process.simps isheader_def name_in_def split: option.splits)
next
  assume ul: "node_name node = Some ''ul''"
  have "map (\<lambda>(x, t). ''- '' @ t) (filter (\<lambda>(x, t). t \<noteq> []) (List.enumerate 0 texts)) =
        map (\<lambda>t. ''- '' @ t) (map snd (filter (\<lambda>(x, t). t \<noteq> []) (List.enumerate 0 texts)))"
    by (simp add: case_prod_beta comp_def)
  also have "\<dots> = map (\<lambda>t. ''- '' @ t) (filter (\<lambda>t. t \<noteq> []) texts)"
    by (simp only: enumerate_filter_snd)
  finally show "items cfg anc article node =
      join NL (map (\<lambda>t. ''- '' @ t) (filter (\<lambda>t. t \<noteq> []) texts))"
    using ul by (simp add: items.simps items_loop_eq assms(2))
next
  assume ol: "node_name node = Some ''ol''"
  then show "items cfg anc article node =
      join NL (map (\<lambda>(x, t). str_nat (x + 1) @ ''. '' @ t)
                   (filter (\<lambda>(x, t). t \<noteq> []) (List.enumerate 0 texts)))"
    by (simp add: items.simps items_loop_eq assms(2))
qed

theorem items_lines_witness:
  "process plain [''body''] None gap_list = ''1. a'' @ NL @ ''3. c'' \<and>
   process plain [''body''] None dash_list = ''- Test1'' @ NL @ ''- Test2''"
proof -
  have g: "name_in gap_list [''ul'', ''ol'']" and gn: "node_name gap_list = Some ''ol''"
    by code_simp+
  have d: "name_in dash_list [''ul'', ''ol'']" and dn: "node_name dash_list = Some ''ul''"
    by code_simp+
  have ge: "join NL (map (\<lambda>(x, t). str_nat (x + 1) @ ''. '' @ t)
              (filter (\<lambda>(x, t). t \<noteq> [])
                 (List.enumerate 0 (map (\<lambda>(a, element). process plain a None element)
                    (find_all [''li''] [''body''] gap_list))))) = ''1. a'' @ NL @ ''3. c''"
    by code_simp
  have de: "join NL (map (\<lambda>t. ''- '' @ t)
              (filter (\<lambda>t. t \<noteq> [])
                 (map (\<lambda>(a, element). process plain a None element)
                    (find_all [''li''] [''body''] dash_list)))) = ''- Test1'' @ NL @ ''- Test2''"
    by code_simp
  show ?thesis
    using items_lines [OF g refl, where cfg = plain and article = None and anc = "[''body'']"]
          items_lines [OF d refl, where cfg = plain and article = None and anc = "[''body'']"] gn dn ge de
    by simp
qed

section \<open>Tables\<close>

text \<open>
  C5, as stated: a table with \<open>N > 1\<close> rows gives \<open>N\<close> row lines, each wrapped in
  \<open>|\<close>, and exactly one separator line; a table with a single row gets no
  separator. It fails. The table with the rows \<open><td><p>a</p><p>b</p></td>\<close> and
  \<open><td>c</td>\<close> gives four lines, the first row being split over \<open>|a\<close> and \<open>b|\<close>.
  The table with one row whose cell holds a one-row table gets a separator, because
  the row of the inner table is counted as well.
\<close>

theorem paragraph_table_counterexample:
  "length (find_all [''tr''] [''body''] paragraph_table) = 2 \<and>
   process plain [''body''] None paragraph_table = ''|a'' @ NL @ ''b|'' @ NL @ ''|---|'' @ NL @ ''|c|'' \<and>
   split_lines (process plain [''body''] None paragraph_table) = [''|a'', ''b|'', ''|---|'', ''|c|''] \<and>
   process plain [''body''] None nested_table = ''||a||a|'' @ NL @ ''|---|---|'' @ NL @ ''|a|''"
  by code_simp

text \<open>
  C5, amended: a table node is converted by the table rule. Its rows are all its
  \<open>tr\<close> descendants and the cells of a row are all the \<open>th\<close> and \<open>td\<close> descendants
  of the row, those of nested tables included. Each row gives one entry: its cells
  converted by \<open>process\<close>, joined with \<open>|\<close> and wrapped in \<open>|\<close>; an entry contains
  a newline where a converted cell does. With more than one row, exactly one separator
  entry follows the entry of the first row, made of one \<open>|---\<close> for each cell of the
  first row and a closing \<open>|\<close>; the output is the newline-join of the first row, the
  separator and the remaining rows, so \<open>N\<close> rows give \<open>N + 1\<close> entries. With
  exactly one row the output is the entry of that row, without a separator.
\<close>

theorem table_lines:
  assumes "node_name node = Some ''table''"
    and "find_all [''tr''] anc node = (ra, row) # rest"
    and "cells = (\<lambda>(ra, row). map (\<lambda>(ca, column). process cfg ca article column)
                                     (find_all [''th'', ''td''] ra row))"
    and "line = (\<lambda>columns. ''|'' @ join ''|'' columns @ ''|'')"
  shows "process cfg anc article node = table cfg anc article node \<and>
         (rest = [] \<longrightarrow> table cfg anc article node = line (cells (ra, row))) \<and>
         (rest \<noteq> [] \<longrightarrow>
            table cfg anc article node =
              join NL (line (cells (ra, row)) #
                       (concat (replicate (length (find_all [''th'', ''td''] ra row)) ''|---'') @ ''|'') #
                       map (\<lambda>r. line (cells r)) rest))"
proof (intro conjI impI)
  show "process cfg anc article node = table cfg anc article node"
    using assms(1) by (simp add: process.simps isheader_def name_in_def)
next
  assume "rest = []"
  then show "table cfg anc article node = line (cells (ra, row))"
    using assms(2-4) by (simp add: table.simps Let_def)
next
  assume "rest \<noteq> []"
  then have n: "1 < length (find_all [''tr''] anc node)"
    using assms(2) by (cases rest) simp_all
  show "table cfg anc article node =
          join NL (line (cells (ra, row)) #
                   (concat (replicate (length (find_all [''th'', ''td''] ra row)) ''|---'') @ ''|'') #
                   map (\<lambda>r. line (cells r)) rest)"
    unfolding table.simps Let_def
    using n assms(2-4) by (simp add: table_loop_done Let_def comp_def)
qed

theorem table_lines_witness:
  "process plain [''body''] None two_row_table =
     ''|Header1|Header2|'' @ NL @ ''|---|---|'' @ NL @ ''|Test1|Test2|'' \<and>
   process plain [''body''] None one_row_table = ''|Test1|Test2|''"
proof -
  have n2: "node_name two_row_table = Some ''table''" and n1: "node_name one_row_table = Some ''table''"
    by code_simp+
  have r2: "find_all [''tr''] [''body''] two_row_table =
              ([''table'', ''body''], header_row) # [([''table'', ''body''], data_row)]"
    by code_simp
  have r1: "find_all [''tr''] [''body''] one_row_table = ([''table'', ''body''], data_row) # []"
    by code_simp
  have c2: "length (find_all [''th'', ''td''] [''table'', ''body''] header_row) = 2"
    by code_simp
  have sep: "concat (replicate 2 ''|---'') = ''|---|---''"
    by code_simp
  have h: "map (\<lambda>(ca, column). process plain ca None column)
             (find_all [''th'', ''td''] [''table'', ''body''] header_row) = [''Header1'', ''Header2'']"
    by code_simp
  have d: "map (\<lambda>(ca, column). process plain ca None column)
             (find_all [''th'', ''td''] [''table'', ''body''] data_row) = [''Test1'', ''Test2'']"
    by code_simp
  show ?thesis
    using table_lines [OF n2 r2 refl refl, where cfg = plain and article = None]
          table_lines [OF n1 r1 refl refl, where cfg = plain and article = None] c2 h d sep
    by simp
qed

section \<open>Links in article mode\<close>

text \<open>
  C6, as stated: in article or main mode a text node with an \<open>a\<close> element in its
  chain gives empty output, unless its parent is a table cell, in which case it is
  rendered; outside article and main mode the same node gives non-empty output. It
  fails for \<open><span>x</span>\<close> in a cell of a table inside a link: the parent is
  \<open>td\<close>, yet the article filter returns the empty string, since \<open>span\<close> is not one
  of its valid text nodes. And a link that holds only an image gives the empty string
  outside article mode.
\<close>

theorem cell_span_counterexample:
  "''a'' \<in> set [''td'', ''tr'', ''table'', ''a'', ''article''] \<and>
   parent_name [''td'', ''tr'', ''table'', ''a'', ''article''] = ''td'' \<and>
   text_handler plain [''td'', ''tr'', ''table'', ''a'', ''article''] None cell_span = ''x'' \<and>
   articletext plain [''td'', ''tr'', ''table'', ''a'', ''article''] cell_span ''x'' = [] \<and>
   text_handler plain [''td'', ''tr'', ''table'', ''a'', ''article''] (Some Article) cell_span = [] \<and>
   node_name image_link = Some ''a'' \<and>
   text_handler plain [''li'', ''ul'', ''nav'', ''body''] None image_link = []"
  by code_simp

text \<open>
  C6, amended: let the node or one of its ancestors be an \<open>a\<close> element. If the
  parent of the node is not a table cell, the article filter returns the empty string
  for it and so does the text rule in article or main mode. If the parent is a table
  cell (\<open>th\<close> or \<open>td\<close>), the node is not a link node, and the filter renders it
  exactly when its tag is one of \<open>p\<close>, \<open>th\<close>, \<open>td\<close>, \<open>li\<close>, \<open>a\<close>, \<open>b\<close>,
  \<open>strong\<close>, \<open>i\<close>, \<open>em\<close> or a heading: it then returns the text with every
  non-breaking space before a newline replaced by a newline (for \<open>p\<close> stripped and
  ended by one newline, or two with paragraphs), and the empty string for every other
  tag. For an element the text rule in article or main mode is the filter applied to
  its output outside these modes; for a cell child with one of these tags and text
  that is not blank it is not empty. Outside article and main mode the text rule
  gives a non-empty result for every element or string whose text is not blank.
\<close>

theorem link_suppression:
  assumes "node_name node = Some ''a'' \<or> ''a'' \<in> set anc"
  shows "(parent_name anc \<notin> set [''th'', ''td''] \<longrightarrow>
            articletext cfg anc node t = [] \<and> text_handler cfg anc (Some m) node = []) \<and>
         (parent_name anc \<in> set [''th'', ''td''] \<longrightarrow>
            \<not> islink anc node \<and>
            articletext cfg anc node t =
              (if (name_in node [''p'', ''th'', ''td'', ''li'', ''a'', ''b'', ''strong'', ''i'', ''em''] \<or>
                   isheader node) \<and> t \<noteq> []
               then (if node_name node = Some ''p''
                     then strip (replace_nbsp t) @ NL @ (if paragraphs cfg then NL else [])
                     else replace_nbsp t)
               else [])) \<and>
         (has_name node \<longrightarrow>
            text_handler cfg anc (Some m) node =
              articletext cfg anc node (text_handler cfg anc None node)) \<and>
         (parent_name anc \<in> set [''th'', ''td''] \<and>
          (name_in node [''p'', ''th'', ''td'', ''li'', ''a'', ''b'', ''strong'', ''i'', ''em''] \<or> isheader node) \<and>
          strip (node_text node) \<noteq> [] \<longrightarrow>
            text_handler cfg anc (Some m) node \<noteq> []) \<and>
         ((has_name node \<or> is_string node) \<and> strip (node_text node) \<noteq> [] \<longrightarrow>
            text_handler cfg anc None node \<noteq> [])"
proof (intro conjI impI)
  assume p: "parent_name anc \<notin> set [''th'', ''td'']"
  have drop: "articletext cfg anc node u = []" for u
  proof (cases node)
    case (Tag n a cs)
    then have "islink anc node" using assms p by (auto simp: islink_def Let_def link_walk_mem)
    then show ?thesis by (simp add: articletext_def Let_def)
  next
    case (NavigableString s)
    then show ?thesis by (simp add: articletext_def Let_def name_in_def isheader_def)
  qed
  show "articletext cfg anc node t = []" by (rule drop)
  show "text_handler cfg anc (Some m) node = []"
    by (simp add: text_handler_def Let_def drop strip_Nil)
next
  assume c: "parent_name anc \<in> set [''th'', ''td'']"
  then show nl: "\<not> islink anc node" by (simp add: islink_def Let_def)
  show "articletext cfg anc node t =
          (if (name_in node [''p'', ''th'', ''td'', ''li'', ''a'', ''b'', ''strong'', ''i'', ''em''] \<or>
               isheader node) \<and> t \<noteq> []
           then (if node_name node = Some ''p''
                 then strip (replace_nbsp t) @ NL @ (if paragraphs cfg then NL else [])
                 else replace_nbsp t)
           else [])"
    using nl by (simp add: articletext_def Let_def)
next
  assume "has_name node"
  then show "text_handler cfg anc (Some m) node =
      articletext cfg anc node (text_handler cfg anc None node)"
    by (rule text_handler_article)
next
  assume c: "parent_name anc \<in> set [''th'', ''td''] \<and>
          (name_in node [''p'', ''th'', ''td'', ''li'', ''a'', ''b'', ''strong'', ''i'', ''em''] \<or> isheader node) \<and>
          strip (node_text node) \<noteq> []"
  then have nl: "\<not> islink anc node" by (simp add: islink_def Let_def)
  have hn: "has_name node" using c by (cases node) (auto simp: name_in_def isheader_def)
  from c have s: "strip (node_text node) \<noteq> []" by simp
  have "articletext cfg anc node (concat (map (fragment node)
           (case children node of None \<Rightarrow> [node] | Some [] \<Rightarrow> [node] | Some cs \<Rightarrow> cs))) \<noteq> []"
    using c nl fragments_nonempty [OF s] by (intro articletext_kept) auto
  then show "text_handler cfg anc (Some m) node \<noteq> []"
    using hn by (simp add: text_handler_def Let_def)
next
  assume h: "(has_name node \<or> is_string node) \<and> strip (node_text node) \<noteq> []"
  show "text_handler cfg anc None node \<noteq> []"
  proof (cases node)
    case (Tag n a cs)
    then have hn: "has_name node" using h by auto
    from h have s: "strip (node_text node) \<noteq> []" by simp
    show ?thesis
      using hn fragments_nonempty [OF s] by (simp add: text_handler_def Let_def)
  next
    case (NavigableString s)
    then show ?thesis
      using h by (simp add: text_handler_def children_def fragment_def name_in_def Let_def)
  qed
qed

theorem link_suppression_witness:
  "text_handler plain [''li'', ''ul'', ''nav'', ''article''] (Some Article) cell_link = [] \<and>
   text_handler plain [''td'', ''tr'', ''table'', ''article''] (Some Article) cell_link = ''[menu](u) '' \<and>
   text_handler plain [''li'', ''ul'', ''nav'', ''body''] None cell_link = ''[menu](u) ''"
proof -
  have n: "node_name cell_link = Some ''a'' \<or> ''a'' \<in> set anc" for anc
    by (rule disjI1) code_simp
  have p1: "parent_name [''li'', ''ul'', ''nav'', ''article''] = ''li''"
    by code_simp
  have p2: "parent_name [''td'', ''tr'', ''table'', ''article''] = ''td''"
    by code_simp
  have v: "name_in cell_link [''p'', ''th'', ''td'', ''li'', ''a'', ''b'', ''strong'', ''i'', ''em'']"
     and hn: "has_name cell_link" and nn: "node_name cell_link \<noteq> Some ''p''"
    by code_simp+
  have e0: "text_handler plain [''td'', ''tr'', ''table'', ''article''] None cell_link = ''[menu](u) ''"
    by code_simp
  have r: "replace_nbsp ''[menu](u) '' = ''[menu](u) ''"
    by code_simp
  have e3: "text_handler plain [''li'', ''ul'', ''nav'', ''body''] None cell_link = ''[menu](u) ''"
    by code_simp
  show ?thesis
    using link_suppression [OF n, where anc = "[''li'', ''ul'', ''nav'', ''article'']" and cfg = plain and m = Article]
          link_suppression [OF n, where anc = "[''td'', ''tr'', ''table'', ''article'']" and cfg = plain
            and m = Article and t = "''[menu](u) ''"]
          p1 p2 v hn nn e0 r e3
    by simp
qed

section \<open>The structure selector\<close>

text \<open>
  C7: the root mode is \<open>Article\<close> if the document has an \<open>article\<close> element,
  else \<open>Main\<close> if it has a \<open>main\<close> element, else none, and then the scope tag is
  \<open>body\<close>. The converted top-level nodes are the elements with the scope tag, in
  document order, without those that have no \<open>p\<close> descendant when a root mode is
  set, each converted by \<open>process\<close> with that root mode.
\<close>

theorem structure_selector:
  "root_mode soup =
     (if \<exists>x\<in>set (map snd (soup_descendants soup)). node_name x = Some ''article'' then Some Article
      else if \<exists>x\<in>set (map snd (soup_descendants soup)). node_name x = Some ''main'' then Some Main
      else None) \<and>
   section_nodes cfg soup =
     map (\<lambda>(anc, node). process cfg anc (root_mode soup) node)
         (filter (\<lambda>(anc, node). root_mode soup = None \<or> find_all [''p''] anc node \<noteq> [])
            (soup_find_all [case root_mode soup of None \<Rightarrow> ''body'' | Some m \<Rightarrow> mode_tag m] soup))"
proof
  show "root_mode soup =
     (if \<exists>x\<in>set (map snd (soup_descendants soup)). node_name x = Some ''article'' then Some Article
      else if \<exists>x\<in>set (map snd (soup_descendants soup)). node_name x = Some ''main'' then Some Main
      else None)"
    unfolding root_mode_def by (simp only: find.simps mode_tag.simps soup_find_exists)
  show "section_nodes cfg soup =
     map (\<lambda>(anc, node). process cfg anc (root_mode soup) node)
         (filter (\<lambda>(anc, node). root_mode soup = None \<or> find_all [''p''] anc node \<noteq> [])
            (soup_find_all [case root_mode soup of None \<Rightarrow> ''body'' | Some m \<Rightarrow> mode_tag m] soup))"
    by (simp add: section_nodes_def Let_def nodes_loop_eq)
qed

theorem structure_selector_witness:
  "root_mode (decompose_soup two_articles) = Some Article \<and>
   section_nodes plain (decompose_soup two_articles) = [''story'' @ NL] \<and>
   root_mode (decompose_soup heading_document) = None \<and>
   section_nodes plain (decompose_soup heading_document) = [NL @ ''# This is a test'']"
proof -
  have a: "(if \<exists>x\<in>set (map snd (soup_descendants (decompose_soup two_articles))). node_name x = Some ''article''
            then Some Article
            else if \<exists>x\<in>set (map snd (soup_descendants (decompose_soup two_articles))). node_name x = Some ''main''
            then Some Main else None) = Some Article"
    by code_simp
  have b: "map (\<lambda>(anc, node). process plain anc (Some Article) node)
             (filter (\<lambda>(anc, node). Some Article = None \<or> find_all [''p''] anc node \<noteq> [])
                (soup_find_all [mode_tag Article] (decompose_soup two_articles))) = [''story'' @ NL]"
    by code_simp
  have c: "(if \<exists>x\<in>set (map snd (soup_descendants (decompose_soup heading_document))). node_name x = Some ''article''
            then Some Article
            else if \<exists>x\<in>set (map snd (soup_descendants (decompose_soup heading_document))). node_name x = Some ''main''
            then Some Main else None) = None"
    by code_simp
  have d: "map (\<lambda>(anc, node). process plain anc None node)
             (filter (\<lambda>(anc, node). (None :: mode option) = None \<or> find_all [''p''] anc node \<noteq> [])
                (soup_find_all [''body''] (decompose_soup heading_document))) = [NL @ ''# This is a test'']"
    by code_simp
  show ?thesis
    using structure_selector [of "decompose_soup two_articles" plain]
          structure_selector [of "decompose_soup heading_document" plain] a b c d
    by simp
qed

section \<open>Containers\<close>

text \<open>
  C8, as stated: for every \<open>div\<close>, \<open>body\<close> or \<open>article\<close> the converted children
  are joined with newlines. It fails for \<open><div>  </div>\<close>: no child is left after
  the whitespace-only strings are dropped, the node is then no container, and the
  text rule returns the two spaces where the join of no children is the empty string.
\<close>

theorem blank_div_counterexample:
  "node_name blank_div = Some ''div'' \<and> children blank_div = Some [] \<and>
   join NL (map (process plain (child_chain [''body''] blank_div) None) []) = [] \<and>
   process plain [''body''] None blank_div = ''  ''"
  by code_simp

text \<open>
  C8, amended: let a node have at least one child left after the whitespace-only
  strings are dropped, and let it be a \<open>div\<close>, \<open>body\<close> or \<open>article\<close>, or have no
  string among these children and match none of the earlier dispatch rules. Then its
  output is the newline-join of the converted children, where in article or main mode
  the empty results are dropped and otherwise all results are kept, an empty one as an
  empty line; the section break is appended when the node has the class token
  \<open>page\<close> and section mode is on.
\<close>

theorem container_join:
  assumes "children node = Some kids" and "kids \<noteq> []"
    and "name_in node [''div'', ''body'', ''article''] \<or>
         (\<not> list_ex is_string kids \<and> \<not> isheader node \<and>
          \<not> name_in node [''blockquote'', ''q'', ''ul'', ''ol'', ''code'', ''pre'', ''table'', ''aside''] \<and>
          (article = None \<longrightarrow> \<not> name_in node [''header'', ''footer'']))"
    and "texts = map (process cfg (child_chain anc node) article) kids"
    and "page = (case get_class node of None \<Rightarrow> False | Some cl \<Rightarrow> ''page'' \<in> set cl)"
  shows "process cfg anc article node =
           join NL (if article = None then texts else filter (\<lambda>t. t \<noteq> []) texts) @
           (if page \<and> sections cfg then FF else [])"
proof -
  obtain n a cs where node: "node = Tag n a cs" and n: "n \<noteq> []"
    using assms(1) by (cases node) (auto simp: children_def split: if_splits)
  have cont: "iscontainer node (Some kids)"
    using assms(2,3) by (auto simp: iscontainer_def)
  have disp: "\<not> isheader node" "\<not> name_in node [''blockquote'', ''q'']"
    "\<not> name_in node [''ul'', ''ol'']" "\<not> name_in node [''code'', ''pre'']"
    "node_name node \<noteq> Some ''table''"
    "\<not> name_in node (''aside'' # (if article \<noteq> None then [] else [''header'', ''footer'']))"
    using assms(3) node by (auto simp: isheader_def name_in_def)
  have pg: "(has_name node \<and> (case get_class node of None \<Rightarrow> False | Some cl \<Rightarrow> cl \<noteq> [] \<and> ''page'' \<in> set cl)) = page"
    using node n assms(5) by (auto split: option.splits)
  have flt: "filter (\<lambda>t. t \<noteq> [] \<or> article = None) texts =
             (if article = None then texts else filter (\<lambda>t. t \<noteq> []) texts)"
    by (cases article) simp_all
  show ?thesis
    by (subst process.simps)
       (simp only: disp cont pg flt assms(1) assms(4) [symmetric] Let_def if_False if_True
          option.case, simp)
qed

theorem container_join_witness:
  "process plain [''body''] None mixed_div = ''a'' @ NL @ NL @ ''b'' \<and>
   process sectioned [''body''] (Some Article) mixed_div = ''a'' @ NL @ NL @ ''b'' @ NL @ FF"
proof -
  have k: "children mixed_div =
             Some [Tag ''p'' no_attrs [NavigableString ''a''], Tag ''span'' no_attrs [],
                   Tag ''p'' no_attrs [NavigableString ''b'']]"
    by code_simp
  have d: "name_in mixed_div [''div'', ''body'', ''article''] \<or>
           (\<not> list_ex is_string [Tag ''p'' no_attrs [NavigableString ''a''], Tag ''span'' no_attrs [],
                   Tag ''p'' no_attrs [NavigableString ''b'']] \<and> \<not> isheader mixed_div \<and>
            \<not> name_in mixed_div [''blockquote'', ''q'', ''ul'', ''ol'', ''code'', ''pre'', ''table'', ''aside''] \<and>
            (art = None \<longrightarrow> \<not> name_in mixed_div [''header'', ''footer'']))" for art :: "mode option"
    by (rule disjI1) code_simp
  have t1: "map (process plain (child_chain [''body''] mixed_div) None)
              [Tag ''p'' no_attrs [NavigableString ''a''], Tag ''span'' no_attrs [],
               Tag ''p'' no_attrs [NavigableString ''b'']] = [''a'', [], ''b'']"
    by code_simp
  have t2: "map (process sectioned (child_chain [''body''] mixed_div) (Some Article))
              [Tag ''p'' no_attrs [NavigableString ''a''], Tag ''span'' no_attrs [],
               Tag ''p'' no_attrs [NavigableString ''b'']] = [''a'' @ NL, [], ''b'' @ NL]"
    by code_simp
  have c: "get_class mixed_div = Some [''page'']" and s: "sections sectioned" "\<not> sections plain"
    by code_simp+
  show ?thesis
    using container_join [OF k _ d refl refl, where cfg = plain and anc = "[''body'']"]
          container_join [OF k _ d refl refl, where cfg = sectioned and anc = "[''body'']" and article = "Some Article"]
          t1 t2 c s
    by simp
qed

section \<open>The heading scenario\<close>

text \<open>
  C9, as stated: the conversion of \<open><h1>This is a test</h1>\<close> inside a body is
  exactly \<open># This is a test\<close>. It fails: the result of \<open>Extract.__call__\<close> has a
  newline in front.
\<close>

theorem call_heading_counterexample:
  "call plain heading_document \<noteq> Inr ''# This is a test''"
  by code_simp

text \<open>
  C9, amended: the conversion of \<open><h1>This is a test</h1>\<close> inside a body by
  \<open>Extract.__call__\<close> with the default configuration is a newline followed by
  \<open># This is a test\<close>.
\<close>

theorem call_heading_document:
  "call plain heading_document = Inr (NL @ ''# This is a test'')"
  by code_simp

section \<open>Links without a target\<close>




end
